theory Spec2Isabelle
  imports Main "HOL-Library.Word"
begin

section \<open>The static-partition analysis job of the auto-analyze priority queue\<close>

text \<open>
  A shallow embedding of
  \<^verbatim>\<open>pkg/statistics/handle/autoanalyze/priorityqueue/static_partitioned_table_analysis_job.go\<close>.
  The job is a struct behind a pointer: a method that assigns a field returns the updated
  record, a method with effects on the outside world (the executor, the validity predicate,
  the hooks) threads a trace of events, and a Go panic is the \<open>Inl\<close> branch of a sum.
\<close>

subsection \<open>Data\<close>

text \<open>
  \<^verbatim>\<open>type JobHook func(job AnalysisJob)\<close> is a function value that may be \<^verbatim>\<open>nil\<close>. A
  non-nil hook is identified by a number; a field holding a hook is a
  \<open>JobHook option\<close>, with \<open>None\<close> for \<^verbatim>\<open>nil\<close>. What a hook does is
  outside this file: its call is recorded, and it is taken to return and to assign no
  field of the job.
\<close>

type_synonym JobHook = nat

text \<open>
  \<^verbatim>\<open>float64\<close> values (change percentage, table size, weight) are only stored and
  returned by this file, never computed with: they are kept as their 64-bit pattern.
  \<^verbatim>\<open>time.Duration\<close> and the two ids are \<^verbatim>\<open>int64\<close>. The stats version is a Go
  \<^verbatim>\<open>int\<close> that is only passed on and compared with 1.
\<close>

record Indicators =
  ChangePercentage :: "64 word"
  TableSize :: "64 word"
  LastAnalysisDuration :: "64 word"

record StaticPartitionedTableAnalysisJob =
  successHook :: "JobHook option"
  failureHook :: "JobHook option"
  TableSchema :: string
  GlobalTableName :: string
  StaticPartitionName :: string
  Indexes :: "string list"
  Indicators :: Indicators
  GlobalTableID :: "64 word"
  StaticPartitionID :: "64 word"
  TableStatsVer :: int
  Weight :: "64 word"

text \<open>
  \<^verbatim>\<open>type analyzeType string\<close> with the two constants of this file. The method
  \<^verbatim>\<open>analyzeStaticPartition\<close> keeps the plain name below, so the constants carry the
  suffix \<open>Type\<close>.
\<close>

type_synonym analyzeType = string

definition analyzeStaticPartitionType :: analyzeType where
  "analyzeStaticPartitionType = ''analyzeStaticPartition''"

definition analyzeStaticPartitionIndexType :: analyzeType where
  "analyzeStaticPartitionIndexType = ''analyzeStaticPartitionIndex''"

subsection \<open>Constructor and accessors\<close>

definition NewStaticPartitionTableAnalysisJob ::
  "string \<Rightarrow> string \<Rightarrow> 64 word \<Rightarrow> string \<Rightarrow> 64 word \<Rightarrow> string list \<Rightarrow> int \<Rightarrow>
   64 word \<Rightarrow> 64 word \<Rightarrow> 64 word \<Rightarrow> StaticPartitionedTableAnalysisJob" where
  "NewStaticPartitionTableAnalysisJob schema globalTableName globalTableID partitionName
      partitionID indexes tableStatsVer changePercentage tableSize lastAnalysisDuration =
     \<lparr> successHook = None,
       failureHook = None,
       TableSchema = schema,
       GlobalTableName = globalTableName,
       StaticPartitionName = partitionName,
       Indexes = indexes,
       Indicators = \<lparr> ChangePercentage = changePercentage,
                      TableSize = tableSize,
                      LastAnalysisDuration = lastAnalysisDuration \<rparr>,
       GlobalTableID = globalTableID,
       StaticPartitionID = partitionID,
       TableStatsVer = tableStatsVer,
       Weight = 0 \<rparr>"

definition GetTableID :: "StaticPartitionedTableAnalysisJob \<Rightarrow> 64 word" where
  "GetTableID j = StaticPartitionID j"

definition RegisterSuccessHook ::
  "StaticPartitionedTableAnalysisJob \<Rightarrow> JobHook option \<Rightarrow> StaticPartitionedTableAnalysisJob" where
  "RegisterSuccessHook j hook = j\<lparr>successHook := hook\<rparr>"

definition RegisterFailureHook ::
  "StaticPartitionedTableAnalysisJob \<Rightarrow> JobHook option \<Rightarrow> StaticPartitionedTableAnalysisJob" where
  "RegisterFailureHook j hook = j\<lparr>failureHook := hook\<rparr>"

definition GetIndicators :: "StaticPartitionedTableAnalysisJob \<Rightarrow> Indicators" where
  "GetIndicators j = Indicators j"

definition SetIndicators ::
  "StaticPartitionedTableAnalysisJob \<Rightarrow> Indicators \<Rightarrow> StaticPartitionedTableAnalysisJob" where
  "SetIndicators j indicators = j\<lparr>Indicators := indicators\<rparr>"

definition HasNewlyAddedIndex :: "StaticPartitionedTableAnalysisJob \<Rightarrow> bool" where
  "HasNewlyAddedIndex j = (length (Indexes j) > 0)"

definition SetWeight ::
  "StaticPartitionedTableAnalysisJob \<Rightarrow> 64 word \<Rightarrow> StaticPartitionedTableAnalysisJob" where
  "SetWeight j weight = j\<lparr>Weight := weight\<rparr>"

definition GetWeight :: "StaticPartitionedTableAnalysisJob \<Rightarrow> 64 word" where
  "GetWeight j = Weight j"

definition getAnalyzeType :: "StaticPartitionedTableAnalysisJob \<Rightarrow> analyzeType" where
  "getAnalyzeType j =
     (if HasNewlyAddedIndex j then analyzeStaticPartitionIndexType
      else analyzeStaticPartitionType)"

subsection \<open>SQL generation\<close>

text \<open>
  The parameters are a \<^verbatim>\<open>[]any\<close> whose elements are all strings here.
\<close>

definition GenSQLForAnalyzeStaticPartition ::
  "StaticPartitionedTableAnalysisJob \<Rightarrow> string \<times> string list" where
  "GenSQLForAnalyzeStaticPartition j =
     (let sql = ''analyze table %n.%n partition %n'';
          params = [TableSchema j, GlobalTableName j, StaticPartitionName j]
      in (sql, params))"

definition GenSQLForAnalyzeStaticPartitionIndex ::
  "StaticPartitionedTableAnalysisJob \<Rightarrow> string \<Rightarrow> string \<times> string list" where
  "GenSQLForAnalyzeStaticPartitionIndex j index =
     (let sql = ''analyze table %n.%n partition %n index %n'';
          params = [TableSchema j, GlobalTableName j, StaticPartitionName j, index]
      in (sql, params))"

subsection \<open>The outside world\<close>

text \<open>
  The session (\<^verbatim>\<open>sessionctx.Context\<close>) is read for one session variable only. A Go
  \<^verbatim>\<open>error\<close> is its message. The tracker is opaque and only passed on: it is
  a label.
\<close>

record SessionVars =
  AnalyzeVersion :: int

record sctx =
  GetSessionVars :: SessionVars

type_synonym error = string

datatype Tracker = Tracker nat

text \<open>
  The session pool is external. What one borrow from it yields is part of the input: a
  session, or a fault with its error.
\<close>

datatype SessionPool = Session sctx | SessionFault error

record StatsHandle =
  SPool :: SessionPool

datatype AutoAnalyzeArgs =
  AutoAnalyzeArgs (arg_sctx: sctx) (arg_statsHandle: StatsHandle) (arg_sysProcTracker: Tracker)
    (arg_statsVer: int) (arg_sql: string) (arg_params: "string list")

text \<open>
  Everything the job does to the outside world is an event of a trace: a call of a hook
  with the job, a call of the executor with its arguments and the boolean it returned, a
  call of the validity predicate with its arguments and what it returned.
\<close>

datatype event =
    HookCall JobHook StaticPartitionedTableAnalysisJob
  | AutoAnalyzeCall AutoAnalyzeArgs bool
  | IsValidCall sctx string string "string list" "bool \<times> string"

text \<open>
  \<^verbatim>\<open>exec.AutoAnalyze\<close> and the package's \<^verbatim>\<open>isValidToAnalyze\<close> are not in the
  source file. Their results are parameters: an arbitrary function of the arguments and
  of everything that happened before. Each call is recorded, and each is taken to return.
\<close>

type_synonym executor = "event list \<Rightarrow> AutoAnalyzeArgs \<Rightarrow> bool"

type_synonym validity =
  "event list \<Rightarrow> sctx \<Rightarrow> string \<Rightarrow> string \<Rightarrow> string list \<Rightarrow> bool \<times> string"

definition AutoAnalyze ::
  "executor \<Rightarrow> sctx \<Rightarrow> StatsHandle \<Rightarrow> Tracker \<Rightarrow> int \<Rightarrow> string \<Rightarrow> string list \<Rightarrow>
   event list \<Rightarrow> bool \<times> event list" where
  "AutoAnalyze ex sctx statsHandle sysProcTracker statsVer sql params tr =
     (let args = AutoAnalyzeArgs sctx statsHandle sysProcTracker statsVer sql params;
          ok = ex tr args
      in (ok, tr @ [AutoAnalyzeCall args ok]))"

definition isValidToAnalyze ::
  "validity \<Rightarrow> sctx \<Rightarrow> string \<Rightarrow> string \<Rightarrow> string list \<Rightarrow> event list \<Rightarrow>
   (bool \<times> string) \<times> event list" where
  "isValidToAnalyze pred sctx schema table partitionNames tr =
     (let res = pred tr sctx schema table partitionNames
      in (res, tr @ [IsValidCall sctx schema table partitionNames res]))"

text \<open>
  A Go panic. Calling a \<^verbatim>\<open>nil\<close> function value panics, and so does indexing a slice
  out of range. A panicking outcome carries no trace.
\<close>

datatype panic = NilFuncCall | IndexOutOfRange

definition callHook ::
  "JobHook option \<Rightarrow> StaticPartitionedTableAnalysisJob \<Rightarrow> event list \<Rightarrow> panic + event list" where
  "callHook hook j tr =
     (case hook of None \<Rightarrow> Inl NilFuncCall | Some h \<Rightarrow> Inr (tr @ [HookCall h j]))"

definition index_at :: "'a list \<Rightarrow> nat \<Rightarrow> panic + 'a" where
  "index_at xs i = (if i < length xs then Inr (xs ! i) else Inl IndexOutOfRange)"

text \<open>
  Modelled from the spec: \<^verbatim>\<open>statsutil.CallWithSCtx\<close> (package
  \<^verbatim>\<open>pkg/statistics/handle/util\<close>) is not among the sources. The spec calls it the
  pool's "run with a borrowed session" primitive, which surfaces a fault through its own
  wrapper: with a session it runs the callback on it and returns the callback's error;
  on a fault it returns the fault's error and the callback does not run. The callback's
  captured variables are the state \<open>st\<close>.
\<close>

definition CallWithSCtx ::
  "SessionPool \<Rightarrow> (sctx \<Rightarrow> 's \<Rightarrow> panic + (error option \<times> 's)) \<Rightarrow> 's \<Rightarrow>
   panic + (error option \<times> 's)" where
  "CallWithSCtx pool f st =
     (case pool of
        SessionFault e \<Rightarrow> Inr (Some e, st)
      | Session sctx \<Rightarrow> f sctx st)"

subsection \<open>Execution\<close>

definition analyzeStaticPartition ::
  "executor \<Rightarrow> StaticPartitionedTableAnalysisJob \<Rightarrow> sctx \<Rightarrow> StatsHandle \<Rightarrow> Tracker \<Rightarrow>
   event list \<Rightarrow> bool \<times> event list" where
  "analyzeStaticPartition ex j sctx statsHandle sysProcTracker tr =
     (case GenSQLForAnalyzeStaticPartition j of
        (sql, params) \<Rightarrow>
          AutoAnalyze ex sctx statsHandle sysProcTracker (TableStatsVer j) sql params tr)"

text \<open>
  The \<^verbatim>\<open>for _, index := range j.Indexes\<close> loop of the version-1 branch, with the
  \<^verbatim>\<open>return false\<close> inside it and the \<^verbatim>\<open>return true\<close> after it.
\<close>

fun analyzeStaticPartitionIndexes_loop ::
  "executor \<Rightarrow> StaticPartitionedTableAnalysisJob \<Rightarrow> sctx \<Rightarrow> StatsHandle \<Rightarrow> Tracker \<Rightarrow>
   string list \<Rightarrow> event list \<Rightarrow> bool \<times> event list" where
  "analyzeStaticPartitionIndexes_loop ex j sctx statsHandle sysProcTracker [] tr = (True, tr)"
| "analyzeStaticPartitionIndexes_loop ex j sctx statsHandle sysProcTracker (index # rest) tr =
     (case GenSQLForAnalyzeStaticPartitionIndex j index of
        (sql, params) \<Rightarrow>
          (case AutoAnalyze ex sctx statsHandle sysProcTracker (TableStatsVer j) sql params tr of
             (ok, tr') \<Rightarrow>
               if \<not> ok then (False, tr')
               else analyzeStaticPartitionIndexes_loop ex j sctx statsHandle sysProcTracker
                      rest tr'))"

definition analyzeStaticPartitionIndexes ::
  "executor \<Rightarrow> StaticPartitionedTableAnalysisJob \<Rightarrow> sctx \<Rightarrow> StatsHandle \<Rightarrow> Tracker \<Rightarrow>
   event list \<Rightarrow> panic + (bool \<times> event list)" where
  "analyzeStaticPartitionIndexes ex j sctx statsHandle sysProcTracker tr =
     (if length (Indexes j) = 0 then Inr (True, tr)
      else
        let analyzeVersion = AnalyzeVersion (GetSessionVars sctx) in
        if analyzeVersion = 1 then
          Inr (analyzeStaticPartitionIndexes_loop ex j sctx statsHandle sysProcTracker
                 (Indexes j) tr)
        else
          (case index_at (Indexes j) 0 of
             Inl p \<Rightarrow> Inl p
           | Inr firstIndex \<Rightarrow>
               (case GenSQLForAnalyzeStaticPartitionIndex j firstIndex of
                  (sql, params) \<Rightarrow>
                    Inr (AutoAnalyze ex sctx statsHandle sysProcTracker (TableStatsVer j)
                           sql params tr))))"

text \<open>
  The callback that \<^verbatim>\<open>Analyze\<close> passes to \<^verbatim>\<open>CallWithSCtx\<close>. It assigns the captured
  variable \<^verbatim>\<open>success\<close>, so the state it transforms is that variable and the trace. The
  \<^verbatim>\<open>switch\<close> has no default: for any other type nothing is assigned. It returns
  \<^verbatim>\<open>nil\<close>.
\<close>

definition Analyze_closure ::
  "executor \<Rightarrow> StaticPartitionedTableAnalysisJob \<Rightarrow> StatsHandle \<Rightarrow> Tracker \<Rightarrow> sctx \<Rightarrow>
   bool \<times> event list \<Rightarrow> panic + (error option \<times> (bool \<times> event list))" where
  "Analyze_closure ex j statsHandle sysProcTracker sctx st =
     (case st of
        (success, tr) \<Rightarrow>
          if getAnalyzeType j = analyzeStaticPartitionType then
            Inr (None, analyzeStaticPartition ex j sctx statsHandle sysProcTracker tr)
          else if getAnalyzeType j = analyzeStaticPartitionIndexType then
            (case analyzeStaticPartitionIndexes ex j sctx statsHandle sysProcTracker tr of
               Inl p \<Rightarrow> Inl p
             | Inr res \<Rightarrow> Inr (None, res))
          else Inr (None, (success, tr)))"

text \<open>The deferred function of \<^verbatim>\<open>Analyze\<close>, run with the final value of \<^verbatim>\<open>success\<close>.\<close>

definition Analyze_deferred ::
  "StaticPartitionedTableAnalysisJob \<Rightarrow> bool \<Rightarrow> event list \<Rightarrow> panic + event list" where
  "Analyze_deferred j success tr =
     (if success then
        (if successHook j \<noteq> None then callHook (successHook j) j tr else Inr tr)
      else
        (if failureHook j \<noteq> None then callHook (failureHook j) j tr else Inr tr))"

text \<open>
  \<^verbatim>\<open>Analyze\<close>: \<^verbatim>\<open>success\<close> starts as \<^verbatim>\<open>true\<close>; the value returned is what
  \<^verbatim>\<open>CallWithSCtx\<close> returns; the deferred function runs last.
\<close>

definition Analyze ::
  "executor \<Rightarrow> StaticPartitionedTableAnalysisJob \<Rightarrow> StatsHandle \<Rightarrow> Tracker \<Rightarrow>
   event list \<Rightarrow> panic + (error option \<times> event list)" where
  "Analyze ex j statsHandle sysProcTracker tr =
     (case CallWithSCtx (SPool statsHandle) (Analyze_closure ex j statsHandle sysProcTracker)
             (True, tr) of
        Inl p \<Rightarrow> Inl p
      | Inr (err, (success, tr')) \<Rightarrow>
          (case Analyze_deferred j success tr' of
             Inl p \<Rightarrow> Inl p
           | Inr tr'' \<Rightarrow> Inr (err, tr'')))"

subsection \<open>Validity check\<close>

definition IsValidToAnalyze ::
  "validity \<Rightarrow> StaticPartitionedTableAnalysisJob \<Rightarrow> sctx \<Rightarrow> event list \<Rightarrow>
   panic + ((bool \<times> string) \<times> event list)" where
  "IsValidToAnalyze pred j sctx tr =
     (if StaticPartitionName j \<noteq> [] then
        let partitionNames = [StaticPartitionName j] in
        (case isValidToAnalyze pred sctx (TableSchema j) (GlobalTableName j) partitionNames tr of
           ((valid, failReason), tr') \<Rightarrow>
             if \<not> valid then
               (case (if failureHook j \<noteq> None then callHook (failureHook j) j tr'
                      else Inr tr') of
                  Inl p \<Rightarrow> Inl p
                | Inr tr'' \<Rightarrow> Inr ((False, failReason), tr''))
             else Inr ((True, []), tr'))
      else Inr ((True, []), tr))"

subsection \<open>Reading a trace\<close>

text \<open>The hooks called, in order, and the executor calls, in order.\<close>

fun hookCalls :: "event list \<Rightarrow> JobHook list" where
  "hookCalls [] = []"
| "hookCalls (HookCall h j # tr) = h # hookCalls tr"
| "hookCalls (e # tr) = hookCalls tr"

fun issued :: "event list \<Rightarrow> AutoAnalyzeArgs list" where
  "issued [] = []"
| "issued (AutoAnalyzeCall args ok # tr) = args # issued tr"
| "issued (e # tr) = issued tr"

text \<open>
  The executor call for the partition-index statement of one index: the arguments that
  \<^verbatim>\<open>analyzeStaticPartitionIndexes\<close> passes to \<^verbatim>\<open>exec.AutoAnalyze\<close>.
\<close>

definition indexCall ::
  "StaticPartitionedTableAnalysisJob \<Rightarrow> sctx \<Rightarrow> StatsHandle \<Rightarrow> Tracker \<Rightarrow> string \<Rightarrow>
   AutoAnalyzeArgs" where
  "indexCall j sctx statsHandle sysProcTracker index =
     AutoAnalyzeArgs sctx statsHandle sysProcTracker (TableStatsVer j)
       (fst (GenSQLForAnalyzeStaticPartitionIndex j index))
       (snd (GenSQLForAnalyzeStaticPartitionIndex j index))"

subsection \<open>Driving a job through a sequence of method calls\<close>

text \<open>
  The methods of the job that assign a field or act on the outside world, as values, and
  what calling one does to the job and the trace. The getters change nothing and are left
  out. A panic ends the sequence.
\<close>

datatype method_call =
    CallRegisterSuccessHook "JobHook option"
  | CallRegisterFailureHook "JobHook option"
  | CallSetIndicators Indicators
  | CallSetWeight "64 word"
  | CallAnalyze StatsHandle Tracker
  | CallIsValidToAnalyze sctx

fun invoke ::
  "executor \<Rightarrow> validity \<Rightarrow> method_call \<Rightarrow>
   StaticPartitionedTableAnalysisJob \<times> event list \<Rightarrow>
   panic + (StaticPartitionedTableAnalysisJob \<times> event list)" where
  "invoke ex pred (CallRegisterSuccessHook hook) (j, tr) = Inr (RegisterSuccessHook j hook, tr)"
| "invoke ex pred (CallRegisterFailureHook hook) (j, tr) = Inr (RegisterFailureHook j hook, tr)"
| "invoke ex pred (CallSetIndicators indicators) (j, tr) = Inr (SetIndicators j indicators, tr)"
| "invoke ex pred (CallSetWeight weight) (j, tr) = Inr (SetWeight j weight, tr)"
| "invoke ex pred (CallAnalyze statsHandle sysProcTracker) (j, tr) =
     (case Analyze ex j statsHandle sysProcTracker tr of
        Inl p \<Rightarrow> Inl p
      | Inr (err, tr') \<Rightarrow> Inr (j, tr'))"
| "invoke ex pred (CallIsValidToAnalyze sctx) (j, tr) =
     (case IsValidToAnalyze pred j sctx tr of
        Inl p \<Rightarrow> Inl p
      | Inr (res, tr') \<Rightarrow> Inr (j, tr'))"

fun invoke_all ::
  "executor \<Rightarrow> validity \<Rightarrow> method_call list \<Rightarrow>
   StaticPartitionedTableAnalysisJob \<times> event list \<Rightarrow>
   panic + (StaticPartitionedTableAnalysisJob \<times> event list)" where
  "invoke_all ex pred [] st = Inr st"
| "invoke_all ex pred (c # cs) st =
     (case invoke ex pred c st of
        Inl p \<Rightarrow> Inl p
      | Inr st' \<Rightarrow> invoke_all ex pred cs st')"

subsection \<open>The two index policies in the words of the specification\<close>

text \<open>
  Executing the statement "analyze table schema.table partition partition index index"
  for one index, through the executor, with the job's configured stats version.
\<close>

definition spec_execute_index_statement ::
  "executor \<Rightarrow> StaticPartitionedTableAnalysisJob \<Rightarrow> sctx \<Rightarrow> StatsHandle \<Rightarrow> Tracker \<Rightarrow>
   string \<Rightarrow> event list \<Rightarrow> bool \<times> event list" where
  "spec_execute_index_statement ex j sctx statsHandle sysProcTracker index tr =
     AutoAnalyze ex sctx statsHandle sysProcTracker (TableStatsVer j)
       ''analyze table %n.%n partition %n index %n''
       [TableSchema j, GlobalTableName j, StaticPartitionName j, index] tr"

text \<open>
  Version 1: one statement per index, strictly sequentially, in list order, stopping at the
  first failure; overall success requires every statement to succeed.
\<close>

fun spec_policy_version1 ::
  "(string \<Rightarrow> event list \<Rightarrow> bool \<times> event list) \<Rightarrow> string list \<Rightarrow> event list \<Rightarrow>
   bool \<times> event list" where
  "spec_policy_version1 run [] tr = (True, tr)"
| "spec_policy_version1 run (i # rest) tr =
     (case run i tr of
        (ok, tr') \<Rightarrow> if ok then spec_policy_version1 run rest tr' else (False, tr'))"

text \<open>
  The other policy: only the statement for the first index of a non-empty list; its result
  is the result.
\<close>

definition spec_policy_first_index ::
  "(string \<Rightarrow> event list \<Rightarrow> bool \<times> event list) \<Rightarrow> string list \<Rightarrow> event list \<Rightarrow>
   bool \<times> event list" where
  "spec_policy_first_index run idxs tr = run (hd idxs) tr"

subsection \<open>Concrete inputs\<close>

definition session_v1 :: sctx where
  "session_v1 = \<lparr> GetSessionVars = \<lparr> AnalyzeVersion = 1 \<rparr> \<rparr>"

definition session_v2 :: sctx where
  "session_v2 = \<lparr> GetSessionVars = \<lparr> AnalyzeVersion = 2 \<rparr> \<rparr>"

definition handle_of :: "sctx \<Rightarrow> StatsHandle" where
  "handle_of sctx = \<lparr> SPool = Session sctx \<rparr>"

definition handle_fault :: StatsHandle where
  "handle_fault = \<lparr> SPool = SessionFault ''session pool closed'' \<rparr>"

text \<open>An executor that always succeeds, and one that fails on the statement of one index.\<close>

definition always_ok :: executor where
  "always_ok tr args = True"

definition fails_on :: "string \<Rightarrow> executor" where
  "fails_on index tr args = (index \<notin> set (arg_params args))"

definition never_valid :: validity where
  "never_valid tr sctx schema table partitionNames = (False, ''partition is locked'')"

text \<open>
  A job on three new indexes, as constructed, and the same job with success hook 1 and
  failure hook 2 registered. The argument is the job's own stats version.
\<close>

definition job_without_hooks :: "int \<Rightarrow> StaticPartitionedTableAnalysisJob" where
  "job_without_hooks ver =
     NewStaticPartitionTableAnalysisJob ''s'' ''t'' 10 ''p'' 11 [''i1'', ''i2'', ''i3'']
       ver 0 0 0"

definition job3 :: "int \<Rightarrow> StaticPartitionedTableAnalysisJob" where
  "job3 ver =
     RegisterFailureHook (RegisterSuccessHook (job_without_hooks ver) (Some 1)) (Some 2)"

section \<open>Auxiliary facts\<close>

lemmas example_defs = session_v1_def session_v2_def handle_of_def handle_fault_def
  always_ok_def fails_on_def never_valid_def job3_def job_without_hooks_def
  NewStaticPartitionTableAnalysisJob_def RegisterSuccessHook_def RegisterFailureHook_def

lemmas run_defs = analyzeStaticPartitionIndexes_def analyzeStaticPartitionIndexes_loop.simps
  analyzeStaticPartition_def index_at_def AutoAnalyze_def indexCall_def
  GenSQLForAnalyzeStaticPartitionIndex_def GenSQLForAnalyzeStaticPartition_def Let_def
  Analyze_def CallWithSCtx_def Analyze_closure_def Analyze_deferred_def callHook_def
  getAnalyzeType_def HasNewlyAddedIndex_def analyzeStaticPartitionType_def
  analyzeStaticPartitionIndexType_def IsValidToAnalyze_def isValidToAnalyze_def

lemma analyzeType_distinct: "analyzeStaticPartitionType \<noteq> analyzeStaticPartitionIndexType"
  by (simp add: analyzeStaticPartitionType_def analyzeStaticPartitionIndexType_def)

lemma getAnalyzeType_eq:
  "getAnalyzeType j =
     (if Indexes j = [] then analyzeStaticPartitionType else analyzeStaticPartitionIndexType)"
  by (simp add: getAnalyzeType_def HasNewlyAddedIndex_def)

lemma hookCalls_append: "hookCalls (xs @ ys) = hookCalls xs @ hookCalls ys"
  by (induction xs rule: hookCalls.induct) simp_all

lemma issued_append: "issued (xs @ ys) = issued xs @ issued ys"
  by (induction xs rule: issued.induct) simp_all

lemma issued_calls: "issued (map (\<lambda>i. AutoAnalyzeCall (f i) b) xs) = map f xs"
  by (induction xs) simp_all

lemma AutoAnalyze_index:
  "AutoAnalyze ex sctx h t (TableStatsVer j)
      (fst (GenSQLForAnalyzeStaticPartitionIndex j i))
      (snd (GenSQLForAnalyzeStaticPartitionIndex j i)) tr =
   (ex tr (indexCall j sctx h t i),
    tr @ [AutoAnalyzeCall (indexCall j sctx h t i) (ex tr (indexCall j sctx h t i))])"
  by (simp add: AutoAnalyze_def indexCall_def Let_def)

text \<open>One turn of the loop: the statement of the index is executed; a failure ends it.\<close>

lemma loop_Cons:
  "analyzeStaticPartitionIndexes_loop ex j sctx h t (i # rest) tr =
     (if ex tr (indexCall j sctx h t i)
      then analyzeStaticPartitionIndexes_loop ex j sctx h t rest
             (tr @ [AutoAnalyzeCall (indexCall j sctx h t i) True])
      else (False, tr @ [AutoAnalyzeCall (indexCall j sctx h t i) False]))"
  using AutoAnalyze_index [of ex sctx h t j i tr]
  by (simp add: split_beta)

declare analyzeStaticPartitionIndexes_loop.simps(2) [simp del]

text \<open>
  What the loop leaves behind: either it returns true and every index had its statement
  executed with success, in order; or it returns false and the statements executed are
  those of the indexes before some position, all with success, and then the one at this
  position, which failed.
\<close>

lemma loop_char:
  "\<exists>ok tr'. analyzeStaticPartitionIndexes_loop ex j sctx h t idxs tr = (ok, tr') \<and>
     (if ok
      then tr' = tr @ map (\<lambda>i. AutoAnalyzeCall (indexCall j sctx h t i) True) idxs
      else \<exists>m<length idxs.
             tr' = tr @ map (\<lambda>i. AutoAnalyzeCall (indexCall j sctx h t i) True) (take m idxs)
                      @ [AutoAnalyzeCall (indexCall j sctx h t (idxs ! m)) False])"
proof (induction idxs arbitrary: tr)
  case Nil
  show ?case by auto
next
  case (Cons i rest)
  let ?c = "\<lambda>i. AutoAnalyzeCall (indexCall j sctx h t i) True"
  show ?case
  proof (cases "ex tr (indexCall j sctx h t i)")
    case False
    then have "analyzeStaticPartitionIndexes_loop ex j sctx h t (i # rest) tr =
        (False, tr @ [AutoAnalyzeCall (indexCall j sctx h t i) False])"
      by (simp only: loop_Cons if_False)
    moreover have "\<exists>m<length (i # rest).
        tr @ [AutoAnalyzeCall (indexCall j sctx h t i) False] =
        tr @ map ?c (take m (i # rest))
           @ [AutoAnalyzeCall (indexCall j sctx h t ((i # rest) ! m)) False]"
      by (rule exI [of _ 0]) simp
    ultimately show ?thesis by auto
  next
    case True
    then have step: "analyzeStaticPartitionIndexes_loop ex j sctx h t (i # rest) tr =
        analyzeStaticPartitionIndexes_loop ex j sctx h t rest (tr @ [?c i])"
      by (simp only: loop_Cons if_True)
    from Cons.IH [of "tr @ [?c i]"] obtain ok tr' where
      run: "analyzeStaticPartitionIndexes_loop ex j sctx h t rest (tr @ [?c i]) = (ok, tr')" and
      shape: "if ok then tr' = (tr @ [?c i]) @ map ?c rest
              else \<exists>m<length rest. tr' = (tr @ [?c i]) @ map ?c (take m rest)
                     @ [AutoAnalyzeCall (indexCall j sctx h t (rest ! m)) False]"
      by blast
    show ?thesis
    proof (cases ok)
      case True
      with run shape step show ?thesis by auto
    next
      case False
      with shape obtain m where m: "m < length rest"
        "tr' = (tr @ [?c i]) @ map ?c (take m rest)
                     @ [AutoAnalyzeCall (indexCall j sctx h t (rest ! m)) False]"
        by auto
      then have "Suc m < length (i # rest) \<and>
          tr' = tr @ map ?c (take (Suc m) (i # rest))
                  @ [AutoAnalyzeCall (indexCall j sctx h t ((i # rest) ! Suc m)) False]"
        by simp
      then have "\<exists>m<length (i # rest).
          tr' = tr @ map ?c (take m (i # rest))
                  @ [AutoAnalyzeCall (indexCall j sctx h t ((i # rest) ! m)) False]"
        by blast
      with run step False show ?thesis by auto
    qed
  qed
qed

lemma loop_issued:
  "\<exists>n\<le>length idxs.
     issued (snd (analyzeStaticPartitionIndexes_loop ex j sctx h t idxs tr)) =
       issued tr @ map (indexCall j sctx h t) (take n idxs)"
proof -
  let ?c = "\<lambda>b i. AutoAnalyzeCall (indexCall j sctx h t i) b"
  from loop_char [of ex j sctx h t idxs tr] obtain ok tr' where
    run: "analyzeStaticPartitionIndexes_loop ex j sctx h t idxs tr = (ok, tr')" and
    shape: "if ok then tr' = tr @ map (?c True) idxs
            else \<exists>m<length idxs. tr' = tr @ map (?c True) (take m idxs) @ [?c False (idxs ! m)]"
    by blast
  show ?thesis
  proof (cases ok)
    case True
    with shape have "issued tr' = issued tr @ map (indexCall j sctx h t) (take (length idxs) idxs)"
      by (simp add: issued_append issued_calls)
    with run show ?thesis by auto
  next
    case False
    with shape obtain m where m: "m < length idxs"
      "tr' = tr @ map (?c True) (take m idxs) @ [?c False (idxs ! m)]" by auto
    then have "issued tr' = issued tr @ map (indexCall j sctx h t) (take (Suc m) idxs)"
      by (simp add: issued_append issued_calls take_Suc_conv_app_nth)
    moreover from m have "Suc m \<le> length idxs" by simp
    ultimately show ?thesis using run by auto
  qed
qed

lemma loop_hookCalls:
  "hookCalls (snd (analyzeStaticPartitionIndexes_loop ex j sctx h t idxs tr)) = hookCalls tr"
proof (induction idxs arbitrary: tr)
  case Nil
  show ?case by simp
next
  case (Cons i rest)
  show ?case
    by (simp only: loop_Cons) (simp add: Cons.IH hookCalls_append)
qed

text \<open>Neither way of analysing calls a hook, and neither can panic.\<close>

lemma partition_hookCalls:
  "hookCalls (snd (analyzeStaticPartition ex j sctx h t tr)) = hookCalls tr"
  by (simp add: analyzeStaticPartition_def AutoAnalyze_def Let_def split_beta hookCalls_append)

lemma indexes_Inr:
  "\<exists>res. analyzeStaticPartitionIndexes ex j sctx h t tr = Inr res \<and>
     hookCalls (snd res) = hookCalls tr"
proof (cases "Indexes j")
  case Nil
  then show ?thesis by (simp add: analyzeStaticPartitionIndexes_def)
next
  case (Cons i rest)
  show ?thesis
  proof (cases "AnalyzeVersion (GetSessionVars sctx) = 1")
    case True
    with Cons have "analyzeStaticPartitionIndexes ex j sctx h t tr =
        Inr (analyzeStaticPartitionIndexes_loop ex j sctx h t (Indexes j) tr)"
      by (simp add: analyzeStaticPartitionIndexes_def)
    then show ?thesis by (simp add: loop_hookCalls)
  next
    case False
    with Cons have "analyzeStaticPartitionIndexes ex j sctx h t tr =
        Inr (ex tr (indexCall j sctx h t i),
             tr @ [AutoAnalyzeCall (indexCall j sctx h t i) (ex tr (indexCall j sctx h t i))])"
      by (simp add: analyzeStaticPartitionIndexes_def index_at_def split_beta AutoAnalyze_index)
    then show ?thesis by (simp add: hookCalls_append)
  qed
qed

lemma closure_Inr:
  "\<exists>ok tr1. Analyze_closure ex j h t sctx (success, tr) = Inr (None, (ok, tr1)) \<and>
      hookCalls tr1 = hookCalls tr"
proof (cases "getAnalyzeType j = analyzeStaticPartitionType")
  case True
  then have "Analyze_closure ex j h t sctx (success, tr) =
      Inr (None, analyzeStaticPartition ex j sctx h t tr)"
    by (simp add: Analyze_closure_def)
  then show ?thesis
    using partition_hookCalls [of ex j sctx h t tr]
    by (cases "analyzeStaticPartition ex j sctx h t tr") simp
next
  case False
  show ?thesis
  proof (cases "getAnalyzeType j = analyzeStaticPartitionIndexType")
    case True
    from indexes_Inr [of ex j sctx h t tr] obtain res where
      r: "analyzeStaticPartitionIndexes ex j sctx h t tr = Inr res"
         "hookCalls (snd res) = hookCalls tr" by blast
    with True False have "Analyze_closure ex j h t sctx (success, tr) = Inr (None, res)"
      by (simp add: Analyze_closure_def)
    with r show ?thesis by (cases res) simp
  next
    case False
    with \<open>getAnalyzeType j \<noteq> analyzeStaticPartitionType\<close> show ?thesis
      by (simp add: Analyze_closure_def)
  qed
qed

text \<open>The deferred function calls the hook that the flag selects, unless it is nil.\<close>

lemma deferred_Inr:
  "Analyze_deferred j success tr =
     Inr (tr @ (case (if success then successHook j else failureHook j) of
                  None \<Rightarrow> [] | Some h \<Rightarrow> [HookCall h j]))"
  by (simp add: Analyze_deferred_def callHook_def split: option.splits)

lemma Analyze_Inr: "\<exists>err tr'. Analyze ex j h t tr = Inr (err, tr')"
proof (cases "SPool h")
  case (SessionFault e)
  then show ?thesis by (simp add: Analyze_def CallWithSCtx_def deferred_Inr)
next
  case (Session sctx)
  from closure_Inr [of ex j h t sctx True tr] obtain ok tr1 where
    "Analyze_closure ex j h t sctx (True, tr) = Inr (None, (ok, tr1))" by blast
  with Session show ?thesis by (simp add: Analyze_def CallWithSCtx_def deferred_Inr)
qed

lemma IsValidToAnalyze_Inr: "\<exists>res tr'. IsValidToAnalyze pred j sctx tr = Inr (res, tr')"
  by (auto simp add: IsValidToAnalyze_def isValidToAnalyze_def callHook_def Let_def split_beta
      split: option.splits)

text \<open>No method assigns the partition id, and no method call panics.\<close>

lemma invoke_keeps_id:
  "\<exists>j' tr'. invoke ex pred c (j, tr) = Inr (j', tr') \<and>
      StaticPartitionID j' = StaticPartitionID j"
proof (cases c)
  case (CallAnalyze h t)
  with Analyze_Inr [of ex j h t tr] show ?thesis by auto
next
  case (CallIsValidToAnalyze sctx)
  with IsValidToAnalyze_Inr [of pred j sctx tr] show ?thesis by auto
qed (simp_all add: RegisterSuccessHook_def RegisterFailureHook_def SetIndicators_def
      SetWeight_def)

lemma invoke_all_keeps_id:
  "\<exists>j' tr'. invoke_all ex pred cs (j, tr) = Inr (j', tr') \<and>
      StaticPartitionID j' = StaticPartitionID j"
proof (induction cs arbitrary: j tr)
  case Nil
  show ?case by simp
next
  case (Cons c cs)
  from invoke_keeps_id [of ex pred c j tr] obtain j1 tr1 where
    one: "invoke ex pred c (j, tr) = Inr (j1, tr1)" "StaticPartitionID j1 = StaticPartitionID j"
    by blast
  from Cons.IH [of j1 tr1] obtain j' tr' where
    "invoke_all ex pred cs (j1, tr1) = Inr (j', tr')" "StaticPartitionID j' = StaticPartitionID j1"
    by blast
  with one show ?case by simp
qed

text \<open>The hooks of the job play no part in what is executed.\<close>

lemma loop_hooks_irrelevant:
  "analyzeStaticPartitionIndexes_loop ex (j\<lparr>successHook := s, failureHook := f\<rparr>) sctx h t idxs tr =
   analyzeStaticPartitionIndexes_loop ex j sctx h t idxs tr"
proof (induction idxs arbitrary: tr)
  case Nil
  show ?case by simp
next
  case (Cons i rest)
  have "indexCall (j\<lparr>successHook := s, failureHook := f\<rparr>) sctx h t i = indexCall j sctx h t i"
    by (simp add: indexCall_def GenSQLForAnalyzeStaticPartitionIndex_def)
  then show ?case by (simp add: loop_Cons Cons.IH)
qed

lemma getAnalyzeType_hooks_irrelevant:
  "getAnalyzeType (j\<lparr>successHook := s, failureHook := f\<rparr>) = getAnalyzeType j"
  by (simp add: getAnalyzeType_def HasNewlyAddedIndex_def)

lemma partition_hooks_irrelevant:
  "analyzeStaticPartition ex (j\<lparr>successHook := s, failureHook := f\<rparr>) sctx h t tr =
   analyzeStaticPartition ex j sctx h t tr"
  by (simp add: analyzeStaticPartition_def GenSQLForAnalyzeStaticPartition_def)

lemma indexes_hooks_irrelevant:
  "analyzeStaticPartitionIndexes ex (j\<lparr>successHook := s, failureHook := f\<rparr>) sctx h t tr =
   analyzeStaticPartitionIndexes ex j sctx h t tr"
  by (simp add: analyzeStaticPartitionIndexes_def GenSQLForAnalyzeStaticPartitionIndex_def
      loop_hooks_irrelevant split: sum.splits)

lemma closure_hooks_irrelevant:
  "Analyze_closure ex (j\<lparr>successHook := s, failureHook := f\<rparr>) h t sctx st =
   Analyze_closure ex j h t sctx st"
  by (simp add: Analyze_closure_def getAnalyzeType_hooks_irrelevant partition_hooks_irrelevant
      indexes_hooks_irrelevant split: prod.splits)

text \<open>The loop of the source is the version-1 policy of the specification.\<close>

lemma spec_execute_index_statement_eq:
  "spec_execute_index_statement ex j sctx h t i tr =
   (ex tr (indexCall j sctx h t i),
    tr @ [AutoAnalyzeCall (indexCall j sctx h t i) (ex tr (indexCall j sctx h t i))])"
  by (simp add: spec_execute_index_statement_def AutoAnalyze_def indexCall_def Let_def
      GenSQLForAnalyzeStaticPartitionIndex_def)

lemma loop_refines_spec:
  "analyzeStaticPartitionIndexes_loop ex j sctx h t idxs tr =
     spec_policy_version1 (spec_execute_index_statement ex j sctx h t) idxs tr"
proof (induction idxs arbitrary: tr)
  case Nil
  show ?case by simp
next
  case (Cons i rest)
  show ?case
    by (simp add: loop_Cons spec_execute_index_statement_eq Cons.IH)
qed

section \<open>The claims\<close>

subsection \<open>Identity, classification and SQL generation\<close>

text \<open>
  Claim C9. For every job with schema \<open>s\<close>, table \<open>t\<close> and partition \<open>p\<close>, the
  whole-partition generator returns the template \<^verbatim>\<open>analyze table %n.%n partition %n\<close>
  with the parameters \<open>[s, t, p]\<close>, and for every index name \<open>i\<close> the partition-index
  generator returns \<^verbatim>\<open>analyze table %n.%n partition %n index %n\<close> with
  \<open>[s, t, p, i]\<close>. Both are functions of the job (and the index name) alone: they take no
  trace and return none, so nothing is executed. Stated for any job by its fields, and for
  a job as the constructor builds it.
\<close>

theorem GenSQL_template_and_params:
  "GenSQLForAnalyzeStaticPartition j =
     (''analyze table %n.%n partition %n'',
      [TableSchema j, GlobalTableName j, StaticPartitionName j]) \<and>
   GenSQLForAnalyzeStaticPartitionIndex j i =
     (''analyze table %n.%n partition %n index %n'',
      [TableSchema j, GlobalTableName j, StaticPartitionName j, i]) \<and>
   GenSQLForAnalyzeStaticPartition
       (NewStaticPartitionTableAnalysisJob s t gid p pid idxs ver cp ts dur) =
     (''analyze table %n.%n partition %n'', [s, t, p]) \<and>
   GenSQLForAnalyzeStaticPartitionIndex
       (NewStaticPartitionTableAnalysisJob s t gid p pid idxs ver cp ts dur) i =
     (''analyze table %n.%n partition %n index %n'', [s, t, p, i])"
  by (simp add: GenSQLForAnalyzeStaticPartition_def GenSQLForAnalyzeStaticPartitionIndex_def
      NewStaticPartitionTableAnalysisJob_def)

text \<open>The two examples of the specification.\<close>

theorem GenSQL_template_and_params_witness:
  "GenSQLForAnalyzeStaticPartition
       (NewStaticPartitionTableAnalysisJob ''s'' ''t'' 10 ''p'' 11 [] 2 0 0 0) =
     (''analyze table %n.%n partition %n'', [''s'', ''t'', ''p'']) \<and>
   GenSQLForAnalyzeStaticPartitionIndex
       (NewStaticPartitionTableAnalysisJob ''s'' ''t'' 10 ''p'' 11 [] 2 0 0 0) ''idx'' =
     (''analyze table %n.%n partition %n index %n'', [''s'', ''t'', ''p'', ''idx''])"
  using GenSQL_template_and_params
    [of "NewStaticPartitionTableAnalysisJob ''s'' ''t'' 10 ''p'' 11 [] 2 0 0 0" "''idx''"
      "''s''" "''t''" 10 "''p''" 11 "[]" 2 0 0 0]
  by blast

text \<open>
  Claim C8. The unit-of-work id that \<^verbatim>\<open>GetTableID\<close> reports is the static partition id
  the job was constructed with, and never the logical table id: directly after
  construction; after any sequence of calls of the methods that assign a field or act on
  the outside world, none of which panics; and whatever the logical table id is set to.
  Where the two ids differ, the reported id differs from the logical table id.
\<close>

theorem GetTableID_is_partition_id:
  "GetTableID (NewStaticPartitionTableAnalysisJob schema globalTableName globalTableID
      partitionName partitionID indexes tableStatsVer changePercentage tableSize
      lastAnalysisDuration) = partitionID \<and>
   (\<exists>j' tr'.
      invoke_all ex pred calls
        (NewStaticPartitionTableAnalysisJob schema globalTableName globalTableID
           partitionName partitionID indexes tableStatsVer changePercentage tableSize
           lastAnalysisDuration, tr) = Inr (j', tr') \<and>
      GetTableID j' = partitionID \<and>
      (globalTableID \<noteq> partitionID \<longrightarrow> GetTableID j' \<noteq> globalTableID)) \<and>
   GetTableID (j\<lparr>GlobalTableID := g\<rparr>) = GetTableID j \<and>
   GetTableID j = StaticPartitionID j"
proof -
  let ?j = "NewStaticPartitionTableAnalysisJob schema globalTableName globalTableID
      partitionName partitionID indexes tableStatsVer changePercentage tableSize
      lastAnalysisDuration"
  have new: "StaticPartitionID ?j = partitionID"
    by (simp add: NewStaticPartitionTableAnalysisJob_def)
  from invoke_all_keeps_id [of ex pred calls ?j tr] obtain j' tr' where
    "invoke_all ex pred calls (?j, tr) = Inr (j', tr')" "StaticPartitionID j' = StaticPartitionID ?j"
    by blast
  with new show ?thesis by (auto simp add: GetTableID_def)
qed

text \<open>
  A job of table 10 and partition 11, after hooks were registered, the weight and the
  indicators set, the validity check failed and the analysis failed on its second index.
\<close>

theorem GetTableID_is_partition_id_witness:
  "(10::64 word) \<noteq> 11 \<and>
   (\<exists>j' tr'.
      invoke_all (fails_on ''i2'') never_valid
        [CallRegisterSuccessHook (Some 1), CallSetWeight 7, CallIsValidToAnalyze session_v1,
         CallSetIndicators \<lparr> ChangePercentage = 1, TableSize = 2, LastAnalysisDuration = 3 \<rparr>,
         CallRegisterFailureHook (Some 2), CallAnalyze (handle_of session_v1) (Tracker 0)]
        (NewStaticPartitionTableAnalysisJob ''s'' ''t'' 10 ''p'' 11 [''i1'', ''i2''] 1 0 0 0, []) =
        Inr (j', tr') \<and>
      GetTableID j' = 11 \<and> GetTableID j' \<noteq> 10)"
proof -
  have ne: "(10::64 word) \<noteq> 11" by simp
  have "\<exists>j' tr'.
      invoke_all (fails_on ''i2'') never_valid
        [CallRegisterSuccessHook (Some 1), CallSetWeight 7, CallIsValidToAnalyze session_v1,
         CallSetIndicators \<lparr> ChangePercentage = 1, TableSize = 2, LastAnalysisDuration = 3 \<rparr>,
         CallRegisterFailureHook (Some 2), CallAnalyze (handle_of session_v1) (Tracker 0)]
        (NewStaticPartitionTableAnalysisJob ''s'' ''t'' 10 ''p'' 11 [''i1'', ''i2''] 1 0 0 0, []) =
        Inr (j', tr') \<and>
      GetTableID j' = 11 \<and> ((10::64 word) \<noteq> 11 \<longrightarrow> GetTableID j' \<noteq> 10)"
    by (rule conjunct1 [OF conjunct2 [OF GetTableID_is_partition_id]])
  with ne show ?thesis by blast
qed

text \<open>
  Claim C7. The analyze type is a function of the index-name sequence alone: a non-empty
  sequence gives the index type, an empty one the partition type (two different values);
  two jobs with the same sequence have the same type whatever their other fields; and the
  type follows an assignment to the sequence at once, since it is computed from the field
  at every call and kept nowhere. \<^verbatim>\<open>HasNewlyAddedIndex\<close> is the same test.
\<close>

theorem getAnalyzeType_by_indexes:
  "getAnalyzeType j =
     (if Indexes j \<noteq> [] then analyzeStaticPartitionIndexType else analyzeStaticPartitionType) \<and>
   analyzeStaticPartitionIndexType \<noteq> analyzeStaticPartitionType \<and>
   (Indexes j = Indexes j' \<longrightarrow> getAnalyzeType j = getAnalyzeType j') \<and>
   getAnalyzeType (j\<lparr>Indexes := idxs\<rparr>) =
     (if idxs \<noteq> [] then analyzeStaticPartitionIndexType else analyzeStaticPartitionType) \<and>
   HasNewlyAddedIndex j = (Indexes j \<noteq> [])"
  by (simp add: getAnalyzeType_def HasNewlyAddedIndex_def analyzeStaticPartitionType_def
      analyzeStaticPartitionIndexType_def)

text \<open>
  Two jobs that differ in the stats version and have the same three indexes, and one of
  them after its indexes were emptied.
\<close>

theorem getAnalyzeType_by_indexes_witness:
  "Indexes (job3 1) = Indexes (job3 2) \<and>
   getAnalyzeType (job3 1) = ''analyzeStaticPartitionIndex'' \<and>
   getAnalyzeType (job3 2) = ''analyzeStaticPartitionIndex'' \<and>
   getAnalyzeType ((job3 2)\<lparr>Indexes := []\<rparr>) = ''analyzeStaticPartition''"
  using getAnalyzeType_by_indexes [of "job3 1" "job3 2" "[]"]
    getAnalyzeType_by_indexes [of "job3 2" "job3 2" "[]"]
  by (simp add: example_defs analyzeStaticPartitionType_def analyzeStaticPartitionIndexType_def)

subsection \<open>The index policies\<close>

text \<open>
  Claim C3, as amended. For every job with a non-empty index list, which of the two
  policies runs is decided by the \<^verbatim>\<open>AnalyzeVersion\<close> variable of the acquired session:
  the one-statement-per-index policy when it is 1, the first-index-only policy for any
  other value. The job's own stats-version field takes no part in the choice; it is the
  version value passed to the executor with every statement issued.
\<close>

theorem index_policy_chosen_by_session_version:
  assumes "Indexes j \<noteq> []"
  shows "\<exists>ok tr' new.
           analyzeStaticPartitionIndexes ex j sctx h t tr = Inr (ok, tr') \<and>
           (ok, tr') =
             (if AnalyzeVersion (GetSessionVars sctx) = 1
              then spec_policy_version1 else spec_policy_first_index)
               (spec_execute_index_statement ex j sctx h t) (Indexes j) tr \<and>
           issued tr' = issued tr @ new \<and>
           (\<forall>a\<in>set new. arg_statsVer a = TableStatsVer j)"
proof -
  from assms obtain i rest where ir: "Indexes j = i # rest" by (cases "Indexes j") auto
  have ver: "\<And>i. arg_statsVer (indexCall j sctx h t i) = TableStatsVer j"
    by (simp add: indexCall_def)
  show ?thesis
  proof (cases "AnalyzeVersion (GetSessionVars sctx) = 1")
    case True
    obtain ok tr' where res:
      "analyzeStaticPartitionIndexes_loop ex j sctx h t (Indexes j) tr = (ok, tr')"
      by (cases "analyzeStaticPartitionIndexes_loop ex j sctx h t (Indexes j) tr")
    from True ir have run: "analyzeStaticPartitionIndexes ex j sctx h t tr =
        Inr (analyzeStaticPartitionIndexes_loop ex j sctx h t (Indexes j) tr)"
      by (simp add: analyzeStaticPartitionIndexes_def)
    from loop_issued [of "Indexes j" ex j sctx h t tr] res obtain n where
      iss: "issued tr' = issued tr @ map (indexCall j sctx h t) (take n (Indexes j))"
      by auto
    have all: "\<forall>a\<in>set (map (indexCall j sctx h t) (take n (Indexes j))).
        arg_statsVer a = TableStatsVer j"
      by (simp add: ver)
    have pol: "(ok, tr') =
        (if AnalyzeVersion (GetSessionVars sctx) = 1
         then spec_policy_version1 else spec_policy_first_index)
          (spec_execute_index_statement ex j sctx h t) (Indexes j) tr"
      using True res loop_refines_spec [of ex j sctx h t "Indexes j" tr] by simp
    from run res have "analyzeStaticPartitionIndexes ex j sctx h t tr = Inr (ok, tr')"
      by simp
    with pol iss all show ?thesis by blast
  next
    case False
    let ?r = "ex tr (indexCall j sctx h t (hd (Indexes j)))"
    let ?tr = "tr @ [AutoAnalyzeCall (indexCall j sctx h t (hd (Indexes j))) ?r]"
    from False ir have run: "analyzeStaticPartitionIndexes ex j sctx h t tr = Inr (?r, ?tr)"
      by (simp add: analyzeStaticPartitionIndexes_def index_at_def split_beta AutoAnalyze_index)
    have pol: "(?r, ?tr) =
        (if AnalyzeVersion (GetSessionVars sctx) = 1
         then spec_policy_version1 else spec_policy_first_index)
          (spec_execute_index_statement ex j sctx h t) (Indexes j) tr"
      using False by (simp add: spec_policy_first_index_def spec_execute_index_statement_eq)
    have iss: "issued ?tr = issued tr @ [indexCall j sctx h t (hd (Indexes j))]"
      by (simp add: issued_append)
    have all: "\<forall>a\<in>set [indexCall j sctx h t (hd (Indexes j))].
        arg_statsVer a = TableStatsVer j"
      by (simp add: ver)
    from run pol iss all show ?thesis by blast
  qed
qed

text \<open>
  A job whose own stats version is 2, on a session of version 1 with the second statement
  failing, and a job whose own stats version is 1 on a session of version 2.
\<close>

theorem index_policy_chosen_by_session_version_witness:
  "Indexes (job3 2) \<noteq> [] \<and>
   analyzeStaticPartitionIndexes (fails_on ''i2'') (job3 2) session_v1 (handle_of session_v1)
       (Tracker 0) [] =
     Inr (spec_policy_version1
            (spec_execute_index_statement (fails_on ''i2'') (job3 2) session_v1
               (handle_of session_v1) (Tracker 0))
            [''i1'', ''i2'', ''i3''] []) \<and>
   Indexes (job3 1) \<noteq> [] \<and>
   analyzeStaticPartitionIndexes (fails_on ''i2'') (job3 1) session_v2 (handle_of session_v2)
       (Tracker 0) [] =
     Inr (spec_policy_first_index
            (spec_execute_index_statement (fails_on ''i2'') (job3 1) session_v2
               (handle_of session_v2) (Tracker 0))
            [''i1'', ''i2'', ''i3''] [])"
proof -
  have ne: "Indexes (job3 2) \<noteq> []" "Indexes (job3 1) \<noteq> []"
    by (simp_all add: example_defs)
  have idx: "Indexes (job3 2) = [''i1'', ''i2'', ''i3'']"
            "Indexes (job3 1) = [''i1'', ''i2'', ''i3'']"
    by (simp_all add: example_defs)
  have v: "AnalyzeVersion (GetSessionVars session_v1) = 1"
          "AnalyzeVersion (GetSessionVars session_v2) \<noteq> 1"
    by (simp_all add: example_defs)
  show ?thesis
    using index_policy_chosen_by_session_version
        [OF ne(1), of "fails_on ''i2''" session_v1 "handle_of session_v1" "Tracker 0" "[]"]
      index_policy_chosen_by_session_version
        [OF ne(2), of "fails_on ''i2''" session_v2 "handle_of session_v2" "Tracker 0" "[]"]
      ne idx v
    by auto
qed

text \<open>
  The claim as written fails. A job whose own stats version is 2, on a session whose
  \<^verbatim>\<open>AnalyzeVersion\<close> is 1, has one statement issued per index (each passed version 2);
  a job whose own stats version is 1, on a session whose \<^verbatim>\<open>AnalyzeVersion\<close> is 2, has
  only the statement of its first index issued (passed version 1).
\<close>

theorem index_policy_job_version_counterexample:
  "TableStatsVer (job3 2) = 2 \<and>
   analyzeStaticPartitionIndexes always_ok (job3 2) session_v1 (handle_of session_v1)
       (Tracker 0) [] =
     Inr (True,
          [AutoAnalyzeCall
             (AutoAnalyzeArgs session_v1 (handle_of session_v1) (Tracker 0) 2
                ''analyze table %n.%n partition %n index %n'' [''s'', ''t'', ''p'', ''i1''])
             True,
           AutoAnalyzeCall
             (AutoAnalyzeArgs session_v1 (handle_of session_v1) (Tracker 0) 2
                ''analyze table %n.%n partition %n index %n'' [''s'', ''t'', ''p'', ''i2''])
             True,
           AutoAnalyzeCall
             (AutoAnalyzeArgs session_v1 (handle_of session_v1) (Tracker 0) 2
                ''analyze table %n.%n partition %n index %n'' [''s'', ''t'', ''p'', ''i3''])
             True]) \<and>
   TableStatsVer (job3 1) = 1 \<and>
   analyzeStaticPartitionIndexes always_ok (job3 1) session_v2 (handle_of session_v2)
       (Tracker 0) [] =
     Inr (True,
          [AutoAnalyzeCall
             (AutoAnalyzeArgs session_v2 (handle_of session_v2) (Tracker 0) 1
                ''analyze table %n.%n partition %n index %n'' [''s'', ''t'', ''p'', ''i1''])
             True])"
  by (simp add: run_defs example_defs)

text \<open>
  Claim C4. Under the version-1 policy (the session's \<^verbatim>\<open>AnalyzeVersion\<close> is 1), for
  every non-empty index list, the statements issued are partition-index statements of the
  indexes, one each, in list order. Either the result is true and every index had its
  statement issued with success; or the result is false, and then the statements issued
  are those of the indexes before some position \<open>m\<close>, all with success, followed by that
  of the index at \<open>m\<close>, which failed, and no statement of a later index. So the result is
  true exactly when every statement issued succeeded, and earlier successes do not count
  once one fails.
\<close>

theorem version1_policy_sequential_short_circuit:
  assumes v1: "AnalyzeVersion (GetSessionVars sctx) = 1" and ne: "Indexes j \<noteq> []"
  shows "\<exists>ok tr'. analyzeStaticPartitionIndexes ex j sctx h t tr = Inr (ok, tr') \<and>
     (if ok
      then tr' = tr @ map (\<lambda>i. AutoAnalyzeCall (indexCall j sctx h t i) True) (Indexes j)
      else \<exists>m<length (Indexes j).
             tr' = tr @ map (\<lambda>i. AutoAnalyzeCall (indexCall j sctx h t i) True)
                          (take m (Indexes j))
                      @ [AutoAnalyzeCall (indexCall j sctx h t (Indexes j ! m)) False])"
proof -
  from v1 ne have "analyzeStaticPartitionIndexes ex j sctx h t tr =
      Inr (analyzeStaticPartitionIndexes_loop ex j sctx h t (Indexes j) tr)"
    by (simp add: analyzeStaticPartitionIndexes_def)
  with loop_char [of ex j sctx h t "Indexes j" tr] show ?thesis by auto
qed

text \<open>
  Three indexes: with the second statement failing, two statements are issued and the
  result is false; with every statement succeeding, three are issued, in order, and the
  result is true.
\<close>

theorem version1_policy_sequential_short_circuit_witness:
  "AnalyzeVersion (GetSessionVars session_v1) = 1 \<and> Indexes (job3 2) \<noteq> [] \<and>
   analyzeStaticPartitionIndexes (fails_on ''i2'') (job3 2) session_v1 (handle_of session_v1)
       (Tracker 0) [] =
     Inr (False,
          [AutoAnalyzeCall
             (indexCall (job3 2) session_v1 (handle_of session_v1) (Tracker 0) ''i1'') True,
           AutoAnalyzeCall
             (indexCall (job3 2) session_v1 (handle_of session_v1) (Tracker 0) ''i2'') False]) \<and>
   analyzeStaticPartitionIndexes always_ok (job3 2) session_v1 (handle_of session_v1)
       (Tracker 0) [] =
     Inr (True,
          [AutoAnalyzeCall
             (indexCall (job3 2) session_v1 (handle_of session_v1) (Tracker 0) ''i1'') True,
           AutoAnalyzeCall
             (indexCall (job3 2) session_v1 (handle_of session_v1) (Tracker 0) ''i2'') True,
           AutoAnalyzeCall
             (indexCall (job3 2) session_v1 (handle_of session_v1) (Tracker 0) ''i3'') True])"
proof -
  have h: "AnalyzeVersion (GetSessionVars session_v1) = 1" "Indexes (job3 2) \<noteq> []"
    by (simp_all add: example_defs)
  show ?thesis
    using version1_policy_sequential_short_circuit
        [OF h, of "fails_on ''i2''" "handle_of session_v1" "Tracker 0" "[]"]
    by (simp add: run_defs example_defs)
qed

text \<open>
  Claim C5. Under the other policy (the session's \<^verbatim>\<open>AnalyzeVersion\<close> is not 1, which
  includes every version from 2 on), for every non-empty index list exactly one statement
  is issued: the partition-index statement generated for the first index of the list. The
  executor's result for it is the result of the index analysis and, through
  \<^verbatim>\<open>Analyze\<close>, of the job: it selects the hook. No statement is generated for the
  remaining indexes: the parameters of the one statement are the schema, table and
  partition names and the first index name, so a remaining index name that is none of
  these four occurs in no statement.
\<close>

theorem first_index_only_policy:
  assumes v2: "AnalyzeVersion (GetSessionVars sctx) \<noteq> 1" and ne: "Indexes j \<noteq> []"
  shows "analyzeStaticPartitionIndexes ex j sctx h t tr =
           Inr (ex tr (indexCall j sctx h t (hd (Indexes j))),
                tr @ [AutoAnalyzeCall (indexCall j sctx h t (hd (Indexes j)))
                        (ex tr (indexCall j sctx h t (hd (Indexes j))))]) \<and>
         indexCall j sctx h t (hd (Indexes j)) =
           AutoAnalyzeArgs sctx h t (TableStatsVer j) ''analyze table %n.%n partition %n index %n''
             [TableSchema j, GlobalTableName j, StaticPartitionName j, hd (Indexes j)] \<and>
         (\<forall>i\<in>set (tl (Indexes j)).
            i \<notin> {TableSchema j, GlobalTableName j, StaticPartitionName j, hd (Indexes j)} \<longrightarrow>
            i \<notin> set (arg_params (indexCall j sctx h t (hd (Indexes j))))) \<and>
         (SPool h = Session sctx \<longrightarrow>
            Analyze ex j h t tr =
              Inr (None,
                   tr @ [AutoAnalyzeCall (indexCall j sctx h t (hd (Indexes j)))
                           (ex tr (indexCall j sctx h t (hd (Indexes j))))]
                      @ (case (if ex tr (indexCall j sctx h t (hd (Indexes j)))
                               then successHook j else failureHook j) of
                           None \<Rightarrow> [] | Some x \<Rightarrow> [HookCall x j])))"
proof -
  from ne obtain i rest where ir: "Indexes j = i # rest" by (cases "Indexes j") auto
  have run: "analyzeStaticPartitionIndexes ex j sctx h t tr =
           Inr (ex tr (indexCall j sctx h t (hd (Indexes j))),
                tr @ [AutoAnalyzeCall (indexCall j sctx h t (hd (Indexes j)))
                        (ex tr (indexCall j sctx h t (hd (Indexes j))))])"
    using v2 ir
    by (simp add: analyzeStaticPartitionIndexes_def index_at_def split_beta AutoAnalyze_index)
  have args: "indexCall j sctx h t (hd (Indexes j)) =
           AutoAnalyzeArgs sctx h t (TableStatsVer j) ''analyze table %n.%n partition %n index %n''
             [TableSchema j, GlobalTableName j, StaticPartitionName j, hd (Indexes j)]"
    by (simp add: indexCall_def GenSQLForAnalyzeStaticPartitionIndex_def)
  have names: "\<forall>i\<in>set (tl (Indexes j)).
            i \<notin> {TableSchema j, GlobalTableName j, StaticPartitionName j, hd (Indexes j)} \<longrightarrow>
            i \<notin> set (arg_params (indexCall j sctx h t (hd (Indexes j))))"
    by (simp add: args)
  have job: "SPool h = Session sctx \<longrightarrow>
            Analyze ex j h t tr =
              Inr (None,
                   tr @ [AutoAnalyzeCall (indexCall j sctx h t (hd (Indexes j)))
                           (ex tr (indexCall j sctx h t (hd (Indexes j))))]
                      @ (case (if ex tr (indexCall j sctx h t (hd (Indexes j)))
                               then successHook j else failureHook j) of
                           None \<Rightarrow> [] | Some x \<Rightarrow> [HookCall x j]))"
    using ne run analyzeType_distinct
    by (simp add: Analyze_def CallWithSCtx_def Analyze_closure_def getAnalyzeType_eq deferred_Inr)
  from run args names job show ?thesis by blast
qed

text \<open>
  Three indexes on a session of version 2: one statement, for \<open>i1\<close>; when it fails the
  failure hook is called.
\<close>

theorem first_index_only_policy_witness:
  "AnalyzeVersion (GetSessionVars session_v2) \<noteq> 1 \<and> Indexes (job3 2) \<noteq> [] \<and>
   analyzeStaticPartitionIndexes always_ok (job3 2) session_v2 (handle_of session_v2)
       (Tracker 0) [] =
     Inr (True,
          [AutoAnalyzeCall
             (AutoAnalyzeArgs session_v2 (handle_of session_v2) (Tracker 0) 2
                ''analyze table %n.%n partition %n index %n'' [''s'', ''t'', ''p'', ''i1''])
             True]) \<and>
   Analyze (fails_on ''i1'') (job3 2) (handle_of session_v2) (Tracker 0) [] =
     Inr (None,
          [AutoAnalyzeCall
             (AutoAnalyzeArgs session_v2 (handle_of session_v2) (Tracker 0) 2
                ''analyze table %n.%n partition %n index %n'' [''s'', ''t'', ''p'', ''i1''])
             False,
           HookCall 2 (job3 2)])"
proof -
  have h: "AnalyzeVersion (GetSessionVars session_v2) \<noteq> 1" "Indexes (job3 2) \<noteq> []"
    by (simp_all add: example_defs)
  show ?thesis
    using first_index_only_policy [OF h, of always_ok "handle_of session_v2" "Tracker 0" "[]"]
    by (simp add: run_defs example_defs)
qed

subsection \<open>Analyze: the returned error and the hooks\<close>

text \<open>
  Claim C1, as amended. Whenever a session is acquired, \<^verbatim>\<open>Analyze\<close> returns
  \<^verbatim>\<open>nil\<close>, whatever the executor returns: an execution failure is never propagated as
  an error. A session-acquisition failure is not absorbed: \<^verbatim>\<open>Analyze\<close> returns the
  error of the pool's wrapper to its caller, and no statement is executed.
\<close>

theorem Analyze_returned_error:
  "(SPool h = Session sctx \<longrightarrow> (\<exists>tr'. Analyze ex j h t tr = Inr (None, tr'))) \<and>
   (SPool h = SessionFault e \<longrightarrow>
      (\<exists>tr'. Analyze ex j h t tr = Inr (Some e, tr') \<and> issued tr' = issued tr))"
proof (intro conjI impI)
  assume p: "SPool h = Session sctx"
  from closure_Inr [of ex j h t sctx True tr] obtain ok tr1 where
    "Analyze_closure ex j h t sctx (True, tr) = Inr (None, (ok, tr1))" by blast
  with p show "\<exists>tr'. Analyze ex j h t tr = Inr (None, tr')"
    by (simp add: Analyze_def CallWithSCtx_def deferred_Inr)
next
  assume p: "SPool h = SessionFault e"
  then have "Analyze ex j h t tr =
      Inr (Some e, tr @ (case successHook j of None \<Rightarrow> [] | Some x \<Rightarrow> [HookCall x j]))"
    by (simp add: Analyze_def CallWithSCtx_def deferred_Inr)
  then show "\<exists>tr'. Analyze ex j h t tr = Inr (Some e, tr') \<and> issued tr' = issued tr"
    by (simp add: issued_append split: option.splits)
qed

text \<open>
  With a session and a failing first statement the error is \<^verbatim>\<open>nil\<close>; with a pool
  fault it is the fault's error and nothing is issued.
\<close>

theorem Analyze_returned_error_witness:
  "SPool (handle_of session_v1) = Session session_v1 \<and>
   (\<exists>tr'. Analyze (fails_on ''i1'') (job3 2) (handle_of session_v1) (Tracker 0) [] =
      Inr (None, tr')) \<and>
   SPool handle_fault = SessionFault ''session pool closed'' \<and>
   (\<exists>tr'. Analyze (fails_on ''i1'') (job3 2) handle_fault (Tracker 0) [] =
      Inr (Some ''session pool closed'', tr') \<and> issued tr' = issued [])"
  using Analyze_returned_error
      [where h = "handle_of session_v1" and sctx = session_v1 and ex = "fails_on ''i1''"
        and j = "job3 2" and t = "Tracker 0" and tr = "[]"]
    Analyze_returned_error
      [where h = handle_fault and e = "''session pool closed''" and ex = "fails_on ''i1''"
        and j = "job3 2" and t = "Tracker 0" and tr = "[]"]
  by (simp add: handle_of_def handle_fault_def)

text \<open>
  The claim as written fails on a pool fault. For a job with success hook 1 and failure
  hook 2, \<^verbatim>\<open>Analyze\<close> returns the fault's error, not \<^verbatim>\<open>nil\<close>, and the one hook
  called is the success hook, not the failure hook.
\<close>

theorem Analyze_pool_fault_counterexample:
  "successHook (job3 2) = Some 1 \<and> failureHook (job3 2) = Some 2 \<and>
   Analyze always_ok (job3 2) handle_fault (Tracker 0) [] =
     Inr (Some ''session pool closed'', [HookCall 1 (job3 2)])"
  by (simp add: run_defs example_defs)

text \<open>
  With a session acquired and both hooks registered, \<^verbatim>\<open>Analyze\<close> returns without a
  panic and calls exactly one hook exactly once, as its last act: the dispatch adds no
  hook call, and the hook added is the success hook if the dispatch returned true and the
  failure hook otherwise. The dispatch is the whole-partition analysis when the job has no
  index and the index analysis when it has some.
\<close>

lemma Analyze_with_session_calls_one_hook:
  assumes s: "successHook j = Some s" and f: "failureHook j = Some f"
    and p: "SPool h = Session sctx"
  shows "\<exists>ok tr1.
     (if Indexes j = [] then analyzeStaticPartition ex j sctx h t tr = (ok, tr1)
      else analyzeStaticPartitionIndexes ex j sctx h t tr = Inr (ok, tr1)) \<and>
     hookCalls tr1 = hookCalls tr \<and>
     Analyze ex j h t tr = Inr (None, tr1 @ [HookCall (if ok then s else f) j])"
proof -
  from closure_Inr [of ex j h t sctx True tr] obtain ok tr1 where
    c: "Analyze_closure ex j h t sctx (True, tr) = Inr (None, (ok, tr1))"
       "hookCalls tr1 = hookCalls tr" by blast
  have path: "if Indexes j = [] then analyzeStaticPartition ex j sctx h t tr = (ok, tr1)
          else analyzeStaticPartitionIndexes ex j sctx h t tr = Inr (ok, tr1)"
    using c(1) analyzeType_distinct
    by (auto simp add: Analyze_closure_def getAnalyzeType_eq split: if_splits sum.splits)
  have "Analyze ex j h t tr = Inr (None, tr1 @ [HookCall (if ok then s else f) j])"
    using p c(1) s f by (simp add: Analyze_def CallWithSCtx_def deferred_Inr)
  with c(2) path show ?thesis by blast
qed

text \<open>
  Claim C2. The claim says that after any call of \<^verbatim>\<open>Analyze\<close> on a job with both
  hooks registered exactly one hook has been called once, on every exit path, the
  session-pool fault among them, and that the hook called reflects the outcome. The code
  breaks this on a pool fault. Evaluated there, for a job with success hook 1 and failure
  hook 2 and an executor that would fail the job's first statement: no statement is
  executed, \<^verbatim>\<open>Analyze\<close> returns the acquisition error, and the one hook called is the
  success hook, although nothing succeeded. The flag \<^verbatim>\<open>success\<close> starts as
  \<^verbatim>\<open>true\<close> and is assigned only inside the callback, which does not run. On the same
  job and executor with a session acquired, the failure hook is the one called.
\<close>

theorem Analyze_pool_fault_calls_success_hook:
  "successHook (job3 1) = Some 1 \<and> failureHook (job3 1) = Some 2 \<and>
   SPool handle_fault = SessionFault ''session pool closed'' \<and>
   Analyze (fails_on ''i1'') (job3 1) handle_fault (Tracker 0) [] =
     Inr (Some ''session pool closed'', [HookCall 1 (job3 1)]) \<and>
   Analyze (fails_on ''i1'') (job3 1) (handle_of session_v1) (Tracker 0) [] =
     Inr (None,
          [AutoAnalyzeCall
             (AutoAnalyzeArgs session_v1 (handle_of session_v1) (Tracker 0) 1
                ''analyze table %n.%n partition %n index %n'' [''s'', ''t'', ''p'', ''i1''])
             False,
           HookCall 2 (job3 1)])"
  by (simp add: run_defs example_defs)

text \<open>
  Claim C10. Hooks are optional. Take any job and set its two hook fields to any values,
  each a hook or nil. \<^verbatim>\<open>Analyze\<close> and \<^verbatim>\<open>IsValidToAnalyze\<close> return without a panic;
  the value returned (the error, respectively the pair of validity and reason) and the
  trace before any hook call are the same for every choice of the two fields; and the
  hook that the outcome selects adds one call when it is registered and nothing when it
  is nil.
\<close>

theorem nil_hooks_are_skipped:
  "(\<exists>err success tr0.
      hookCalls tr0 = hookCalls tr \<and>
      (\<forall>s f. Analyze ex (j\<lparr>successHook := s, failureHook := f\<rparr>) h t tr =
          Inr (err,
               tr0 @ (case (if success then s else f) of
                        None \<Rightarrow> []
                      | Some x \<Rightarrow> [HookCall x (j\<lparr>successHook := s, failureHook := f\<rparr>)])))) \<and>
   (\<exists>res tr0.
      hookCalls tr0 = hookCalls tr \<and>
      (\<forall>s f. IsValidToAnalyze pred (j\<lparr>successHook := s, failureHook := f\<rparr>) sctx tr =
          Inr (res,
               tr0 @ (case (if fst res then None else f) of
                        None \<Rightarrow> []
                      | Some x \<Rightarrow> [HookCall x (j\<lparr>successHook := s, failureHook := f\<rparr>)]))))"
proof (rule conjI)
  show "\<exists>err success tr0.
      hookCalls tr0 = hookCalls tr \<and>
      (\<forall>s f. Analyze ex (j\<lparr>successHook := s, failureHook := f\<rparr>) h t tr =
          Inr (err,
               tr0 @ (case (if success then s else f) of
                        None \<Rightarrow> []
                      | Some x \<Rightarrow> [HookCall x (j\<lparr>successHook := s, failureHook := f\<rparr>)])))"
  proof (cases "SPool h")
    case (SessionFault e)
    then have "\<forall>s f. Analyze ex (j\<lparr>successHook := s, failureHook := f\<rparr>) h t tr =
          Inr (Some e,
               tr @ (case (if True then s else f) of
                        None \<Rightarrow> []
                      | Some x \<Rightarrow> [HookCall x (j\<lparr>successHook := s, failureHook := f\<rparr>)]))"
      by (simp add: Analyze_def CallWithSCtx_def deferred_Inr)
    then show ?thesis by blast
  next
    case (Session sctx')
    from closure_Inr [of ex j h t sctx' True tr] obtain ok tr1 where
      c: "Analyze_closure ex j h t sctx' (True, tr) = Inr (None, (ok, tr1))"
         "hookCalls tr1 = hookCalls tr" by blast
    have "\<forall>s f. Analyze ex (j\<lparr>successHook := s, failureHook := f\<rparr>) h t tr =
          Inr (None,
               tr1 @ (case (if ok then s else f) of
                        None \<Rightarrow> []
                      | Some x \<Rightarrow> [HookCall x (j\<lparr>successHook := s, failureHook := f\<rparr>)]))"
      using Session c(1)
      by (simp add: Analyze_def CallWithSCtx_def closure_hooks_irrelevant deferred_Inr)
    with c(2) show ?thesis by blast
  qed
next
  let ?r = "pred tr sctx (TableSchema j) (GlobalTableName j) [StaticPartitionName j]"
  let ?e = "IsValidCall sctx (TableSchema j) (GlobalTableName j) [StaticPartitionName j] ?r"
  show "\<exists>res tr0.
      hookCalls tr0 = hookCalls tr \<and>
      (\<forall>s f. IsValidToAnalyze pred (j\<lparr>successHook := s, failureHook := f\<rparr>) sctx tr =
          Inr (res,
               tr0 @ (case (if fst res then None else f) of
                        None \<Rightarrow> []
                      | Some x \<Rightarrow> [HookCall x (j\<lparr>successHook := s, failureHook := f\<rparr>)])))"
  proof (cases "StaticPartitionName j = []")
    case True
    then have "\<forall>s f. IsValidToAnalyze pred (j\<lparr>successHook := s, failureHook := f\<rparr>) sctx tr =
          Inr ((True, []),
               tr @ (case (if fst (True, []) then None else f) of
                        None \<Rightarrow> []
                      | Some x \<Rightarrow> [HookCall x (j\<lparr>successHook := s, failureHook := f\<rparr>)]))"
      by (simp add: IsValidToAnalyze_def)
    then show ?thesis by blast
  next
    case False
    have quiet: "hookCalls (tr @ [?e]) = hookCalls tr"
      by (simp add: hookCalls_append)
    show ?thesis
    proof (cases "fst ?r")
      case True
      with False have
        "\<forall>s f. IsValidToAnalyze pred (j\<lparr>successHook := s, failureHook := f\<rparr>) sctx tr =
          Inr ((True, []),
               (tr @ [?e]) @ (case (if fst (True, []) then None else f) of
                        None \<Rightarrow> []
                      | Some x \<Rightarrow> [HookCall x (j\<lparr>successHook := s, failureHook := f\<rparr>)]))"
        by (simp add: IsValidToAnalyze_def isValidToAnalyze_def Let_def split_beta)
      with quiet show ?thesis by blast
    next
      case nv: False
      with False have
        "\<forall>s f. IsValidToAnalyze pred (j\<lparr>successHook := s, failureHook := f\<rparr>) sctx tr =
          Inr ((False, snd ?r),
               (tr @ [?e]) @ (case (if fst (False, snd ?r) then None else f) of
                        None \<Rightarrow> []
                      | Some x \<Rightarrow> [HookCall x (j\<lparr>successHook := s, failureHook := f\<rparr>)]))"
        by (simp add: IsValidToAnalyze_def isValidToAnalyze_def Let_def split_beta callHook_def
            split: option.splits)
      with quiet show ?thesis by blast
    qed
  qed
qed

text \<open>
  The job as constructed, with no hook: a failing analysis, a pool fault and a failing
  validity check return as they do for the job with both hooks, and call nothing.
\<close>

theorem nil_hooks_are_skipped_witness:
  "Analyze (fails_on ''i1'') (job_without_hooks 2) (handle_of session_v2) (Tracker 0) [] =
     Inr (None,
          [AutoAnalyzeCall (indexCall (job_without_hooks 2) session_v2 (handle_of session_v2)
             (Tracker 0) ''i1'') False]) \<and>
   Analyze (fails_on ''i1'') (job3 2) (handle_of session_v2) (Tracker 0) [] =
     Inr (None,
          [AutoAnalyzeCall (indexCall (job_without_hooks 2) session_v2 (handle_of session_v2)
             (Tracker 0) ''i1'') False,
           HookCall 2 (job3 2)]) \<and>
   Analyze always_ok (job_without_hooks 2) handle_fault (Tracker 0) [] =
     Inr (Some ''session pool closed'', []) \<and>
   IsValidToAnalyze never_valid (job_without_hooks 2) session_v2 [] =
     Inr ((False, ''partition is locked''),
          [IsValidCall session_v2 ''s'' ''t'' [''p''] (False, ''partition is locked'')]) \<and>
   IsValidToAnalyze never_valid (job3 2) session_v2 [] =
     Inr ((False, ''partition is locked''),
          [IsValidCall session_v2 ''s'' ''t'' [''p''] (False, ''partition is locked''),
           HookCall 2 (job3 2)])"
  using nil_hooks_are_skipped
      [of "[]" "fails_on ''i1''" "job_without_hooks 2" "handle_of session_v2" "Tracker 0"
        never_valid session_v2]
  by (simp add: run_defs example_defs)

subsection \<open>The validity check\<close>

text \<open>
  Claim C6. With an empty partition name \<^verbatim>\<open>IsValidToAnalyze\<close> returns
  \<open>(true, "")\<close> and leaves the trace as it was, for any validity predicate: the
  predicate is not called. With a non-empty partition name, a predicate that answers
  \<open>(false, reason)\<close> for the job's schema, table and partition, and a registered failure
  hook, it returns \<open>(false, reason)\<close> with the same reason, and what it adds to the trace
  is the predicate's call followed by one call of the failure hook: the hook is called
  within the check itself, and no statement is executed.
\<close>

theorem IsValidToAnalyze_outcomes:
  "(StaticPartitionName j = [] \<longrightarrow> IsValidToAnalyze pred j sctx tr = Inr ((True, []), tr)) \<and>
   (StaticPartitionName j \<noteq> [] \<and>
    pred tr sctx (TableSchema j) (GlobalTableName j) [StaticPartitionName j] = (False, reason) \<and>
    failureHook j = Some f \<longrightarrow>
      IsValidToAnalyze pred j sctx tr =
        Inr ((False, reason),
             tr @ [IsValidCall sctx (TableSchema j) (GlobalTableName j) [StaticPartitionName j]
                     (False, reason),
                   HookCall f j]))"
proof (intro conjI impI)
  assume "StaticPartitionName j = []"
  then show "IsValidToAnalyze pred j sctx tr = Inr ((True, []), tr)"
    by (simp add: IsValidToAnalyze_def)
next
  let ?e = "IsValidCall sctx (TableSchema j) (GlobalTableName j) [StaticPartitionName j]
              (False, reason)"
  assume a: "StaticPartitionName j \<noteq> [] \<and>
    pred tr sctx (TableSchema j) (GlobalTableName j) [StaticPartitionName j] = (False, reason) \<and>
    failureHook j = Some f"
  then have asked: "isValidToAnalyze pred sctx (TableSchema j) (GlobalTableName j)
      [StaticPartitionName j] tr = ((False, reason), tr @ [?e])"
    by (simp add: isValidToAnalyze_def Let_def)
  from a have hooked: "callHook (failureHook j) j (tr @ [?e]) = Inr (tr @ [?e, HookCall f j])"
    by (simp add: callHook_def)
  from a asked hooked show "IsValidToAnalyze pred j sctx tr =
      Inr ((False, reason), tr @ [?e, HookCall f j])"
    by (simp add: IsValidToAnalyze_def)
qed

text \<open>
  A predicate that rejects everything: the job with its partition name emptied is valid
  all the same; the job with partition \<open>p\<close> is rejected with the predicate's reason and
  its failure hook 2 is called once.
\<close>

theorem IsValidToAnalyze_outcomes_witness:
  "StaticPartitionName ((job3 2)\<lparr>StaticPartitionName := []\<rparr>) = [] \<and>
   IsValidToAnalyze never_valid ((job3 2)\<lparr>StaticPartitionName := []\<rparr>) session_v2 [] =
     Inr ((True, []), []) \<and>
   StaticPartitionName (job3 2) \<noteq> [] \<and>
   never_valid [] session_v2 (TableSchema (job3 2)) (GlobalTableName (job3 2))
     [StaticPartitionName (job3 2)] = (False, ''partition is locked'') \<and>
   failureHook (job3 2) = Some 2 \<and>
   IsValidToAnalyze never_valid (job3 2) session_v2 [] =
     Inr ((False, ''partition is locked''),
          [IsValidCall session_v2 ''s'' ''t'' [''p''] (False, ''partition is locked''),
           HookCall 2 (job3 2)])"
  using IsValidToAnalyze_outcomes
      [where j = "(job3 2)\<lparr>StaticPartitionName := []\<rparr>" and pred = never_valid
        and sctx = session_v2 and tr = "[]"]
    IsValidToAnalyze_outcomes
      [where j = "job3 2" and pred = never_valid and sctx = session_v2 and tr = "[]"
        and reason = "''partition is locked''" and f = 2]
  by (simp add: example_defs)

end
